theory Spec2Isabelle
  imports Main
begin

section \<open>JavaScript values, arrays and builtins\<close>

text \<open>
  The only exception the connector can raise by itself is the \<open>TypeError\<close> of reading or
  writing a property of \<open>undefined\<close>.
\<close>

datatype error = TypeError

text \<open>
  A cell value (\<open>DataValueType\<close>) is a string, a number or \<open>null\<close>; \<open>Undefined\<close> is what an
  array position reads as when nothing was ever stored there. The number type \<open>'n\<close> stands for
  JavaScript's numbers: the model uses no law of its arithmetic, only the operations the source
  applies (\<open>*\<close> and numeric literals).
\<close>

datatype 'n val = Undefined | Null | Num 'n | Str string

text \<open>
  The two builtins that produce or print numbers are parameters of the model:
  \<open>parseFloat\<close>, and the number-to-string coercion of \<open>'' + x\<close> and of \<open>Array.join\<close>.
\<close>

record 'n builtins =
  parseFloat :: "string \<Rightarrow> 'n"
  numberToString :: "'n \<Rightarrow> string"

text \<open>
  A JavaScript array is a list of slots together with the value a missing slot reads as
  (\<open>hole\<close>). Reading past the end gives the hole; writing past the end extends the array and
  leaves holes in between.
\<close>

definition array_get :: "'a \<Rightarrow> 'a list \<Rightarrow> nat \<Rightarrow> 'a" where
  "array_get hole xs i = (if i < length xs then xs ! i else hole)"

definition array_set :: "'a \<Rightarrow> 'a list \<Rightarrow> nat \<Rightarrow> 'a \<Rightarrow> 'a list" where
  "array_set hole xs i v =
     (if i < length xs then xs[i := v]
      else xs @ replicate (i - length xs) hole @ [v])"

text \<open>
  A column is an array of cell values (holes read as \<open>Undefined\<close>); the Column Set is an array
  of columns, whose own holes (\<open>None\<close>) are positions where no column was ever created.
\<close>

type_synonym 'n column = "'n val list"
type_synonym 'n columns = "'n column option list"

text \<open>\<open>s.indexOf(c)\<close> for a one-character search string: the first position, or \<open>-1\<close>.\<close>

fun indexOf :: "string \<Rightarrow> char \<Rightarrow> int" where
  "indexOf [] c = - 1"
| "indexOf (x # xs) c =
     (if x = c then 0
      else (let r = indexOf xs c in if r < 0 then - 1 else r + 1))"

section \<open>Cell feed and options\<close>

text \<open>
  One feed entry, reduced to its \<open>gs$cell\<close> descriptor: 1-based \<open>row\<close> and \<open>col\<close>, the optional
  \<open>numericValue\<close> (the feed carries it as text, the code hands it to \<open>parseFloat\<close>) and the
  display text \<open>$t\<close>. In \<open>cellInner = cell.gs$cell || cell.content\<close> the left operand is an
  object the first loop has already dereferenced, hence truthy: \<open>cellInner\<close> is \<open>gs$cell\<close>.
\<close>

record gs_cell =
  row :: int
  col :: int
  numericValue :: "string option"
  dollar_t :: string

text \<open>The payload: \<open>json.feed.entry\<close>, which may be missing.\<close>

datatype json = Json (feed_entry: "gs_cell list option")

text \<open>
  The options after \<open>merge\<close>. The window bounds index arrays and are integers; the worksheet
  number and the refresh rate are numbers.
\<close>

record 'n options =
  googleSpreadsheetKey :: string
  worksheet :: 'n
  startColumn :: int
  endColumn :: int
  startRow :: int
  endRow :: int
  enablePolling :: bool
  dataRefreshRate :: 'n

text \<open>\<open>Number.MAX_VALUE\<close>, the largest double, is the integer \<open>(2^53 - 1) * 2^971\<close>.\<close>

definition Number_MAX_VALUE :: int where
  "Number_MAX_VALUE = (2 ^ 53 - 1) * 2 ^ 971"

definition defaultOptions :: "('n::{numeral,times}) options" where
  "defaultOptions =
     \<lparr> googleSpreadsheetKey = [],
       worksheet = 1,
       startColumn = 0,
       endColumn = Number_MAX_VALUE,
       startRow = 0,
       endRow = Number_MAX_VALUE,
       enablePolling = False,
       dataRefreshRate = 2 \<rparr>"

section \<open>getSheetColumns\<close>

text \<open>Truthiness of an optional string: present and not empty.\<close>

definition truthy :: "string option \<Rightarrow> bool" where
  "truthy s = (case s of None \<Rightarrow> False | Some x \<Rightarrow> x \<noteq> [])"

text \<open>\<open>(cells || [])\<close>.\<close>

definition cellsOrEmpty :: "json \<Rightarrow> gs_cell list" where
  "cellsOrEmpty j = (case feed_entry j of None \<Rightarrow> [] | Some cs \<Rightarrow> cs)"

text \<open>First loop: the largest column and row index present, starting from 0.\<close>

fun countLoop :: "gs_cell list \<Rightarrow> int \<times> int \<Rightarrow> int \<times> int" where
  "countLoop [] (colCount, rowCount) = (colCount, rowCount)"
| "countLoop (cell # cells) (colCount, rowCount) =
     countLoop cells (max colCount (col cell), max rowCount (row cell))"

text \<open>
  Second loop: \<open>for (i = 0; i < colCount; i++)\<close>, creating the empty column
  \<open>columns[i - startColumn]\<close> for every \<open>i\<close> inside the column window.
\<close>

function setupLoop :: "'n options \<Rightarrow> int \<Rightarrow> int \<Rightarrow> 'n columns \<Rightarrow> 'n columns" where
  "setupLoop opts colCount i cols =
     (if i < colCount then
        setupLoop opts colCount (i + 1)
          (if i \<ge> startColumn opts \<and> i \<le> endColumn opts
           then array_set None cols (nat (i - startColumn opts)) (Some [])
           else cols)
      else cols)"
  by pat_completeness auto
termination
  by (relation "measure (\<lambda>(opts, colCount, i, cols). nat (colCount - i))") auto

text \<open>The value of one cell, lines 143 to 158 of the source.\<close>

definition cellValue :: "'n::{numeral,times} builtins \<Rightarrow> gs_cell \<Rightarrow> 'n val" where
  "cellValue B cellInner =
     (if truthy (numericValue cellInner) then
        (if indexOf (dollar_t cellInner) CHR ''/'' \<ge> 0 \<or>
            indexOf (dollar_t cellInner) CHR ''-'' \<ge> 0
         then Str (dollar_t cellInner)
         else if indexOf (dollar_t cellInner) CHR ''%'' > 0
         then Num (parseFloat B (the (numericValue cellInner)) * 100)
         else Num (parseFloat B (the (numericValue cellInner))))
      else if dollar_t cellInner \<noteq> [] then Str (dollar_t cellInner)
      else Null)"

text \<open>The window test of the third loop.\<close>

definition inWindow :: "'n options \<Rightarrow> gs_cell \<Rightarrow> bool" where
  "inWindow opts cell =
     (let gr = row cell - 1; gc = col cell - 1 in
      gc \<ge> startColumn opts \<and> gc \<le> endColumn opts \<and>
      gr \<ge> startRow opts \<and> gr \<le> endRow opts)"

text \<open>
  Body of the third loop. \<open>columns[gc - startColumn][gr - startRow] = val\<close> raises a
  \<open>TypeError\<close> when no column was created at \<open>gc - startColumn\<close>; otherwise it stores into
  that column, extending it as needed.
\<close>

definition assignCell ::
  "'n::{numeral,times} builtins \<Rightarrow> 'n options \<Rightarrow> gs_cell \<Rightarrow> 'n columns \<Rightarrow> error + 'n columns" where
  "assignCell B opts cell cols =
     (let gr = row cell - 1; gc = col cell - 1 in
      if inWindow opts cell then
        (let v = cellValue B cell in
         case array_get None cols (nat (gc - startColumn opts)) of
           None \<Rightarrow> Inl TypeError
         | Some column \<Rightarrow>
             Inr (cols[nat (gc - startColumn opts) :=
                    Some (array_set Undefined column (nat (gr - startRow opts)) v)]))
      else Inr cols)"

text \<open>The read \<open>columns[k][r]\<close>.\<close>

definition columnsAt :: "'n columns \<Rightarrow> nat \<Rightarrow> nat \<Rightarrow> error + 'n val" where
  "columnsAt cols k r =
     (case array_get None cols k of
        None \<Rightarrow> Inl TypeError
      | Some column \<Rightarrow> Inr (array_get Undefined column r))"

fun assignLoop ::
  "'n::{numeral,times} builtins \<Rightarrow> 'n options \<Rightarrow> gs_cell list \<Rightarrow> 'n columns \<Rightarrow> error + 'n columns" where
  "assignLoop B opts [] cols = Inr cols"
| "assignLoop B opts (cell # cells) cols =
     (case assignCell B opts cell cols of
        Inl e \<Rightarrow> Inl e
      | Inr cols' \<Rightarrow> assignLoop B opts cells cols')"

text \<open>
  Fourth loop, as written: the inner \<open>for (j = 0; j < cellCount; i++)\<close> advances \<open>i\<close>, not
  \<open>j\<close>. Its body reads \<open>columns[i][j]\<close>, a \<open>TypeError\<close> when \<open>columns[i]\<close> is undefined, and
  stores \<open>null\<close> where the position reads as undefined. The inner loop returns the \<open>i\<close> it
  stopped at, since the outer loop goes on from there.
\<close>

function fillInner :: "nat \<Rightarrow> nat \<Rightarrow> nat \<Rightarrow> 'n columns \<Rightarrow> error + (nat \<times> 'n columns)" where
  "fillInner cellCount i j cols =
     (if j < cellCount then
        (case array_get None cols i of
           None \<Rightarrow> Inl TypeError
         | Some column \<Rightarrow>
             fillInner cellCount (i + 1) j
               (if array_get Undefined column j = Undefined
                then cols[i := Some (array_set Undefined column j Null)]
                else cols))
      else Inr (i, cols))"
  by pat_completeness auto
termination
  by (relation "measure (\<lambda>(cellCount, i, j, cols). length cols - i)")
     (auto simp: array_get_def split: if_splits)

declare setupLoop.simps [simp del] fillInner.simps [simp del]

lemma fillInner_index: "fillInner cellCount i j cols = Inr (i', cols') \<Longrightarrow> i \<le> i'"
proof (induction cellCount i j cols rule: fillInner.induct)
  case (1 cellCount i j cols)
  show ?case
  proof (cases "j < cellCount")
    case False
    with "1.prems" show ?thesis by (simp add: fillInner.simps [of cellCount i j cols])
  next
    case True
    show ?thesis
    proof (cases "array_get None cols i")
      case None
      with True "1.prems" show ?thesis by (simp add: fillInner.simps [of cellCount i j cols])
    next
      case (Some column)
      from True Some "1.prems" have "i + 1 \<le> i'"
        using "1.IH" [OF True Some] by (simp add: fillInner.simps [of cellCount i j cols])
      then show ?thesis by simp
    qed
  qed
qed

function fillOuter :: "int \<Rightarrow> nat \<Rightarrow> nat \<Rightarrow> 'n columns \<Rightarrow> error + 'n columns" where
  "fillOuter colCount cellCount i cols =
     (if int i < colCount then
        (case fillInner cellCount i 0 cols of
           Inl e \<Rightarrow> Inl e
         | Inr (i', cols') \<Rightarrow> fillOuter colCount cellCount (i' + 1) cols')
      else Inr cols)"
  by pat_completeness auto
termination
  by (relation "measure (\<lambda>(colCount, cellCount, i, cols). nat (colCount - int i))")
     (auto dest: fillInner_index)

declare fillOuter.simps [simp del]

text \<open>
  The columns as they stand after the third loop, and \<open>getSheetColumns\<close> itself: the fourth
  loop run on them.
\<close>

definition assignedColumns ::
  "'n::{numeral,times} builtins \<Rightarrow> 'n options \<Rightarrow> json \<Rightarrow> error + 'n columns" where
  "assignedColumns B opts j =
     (let cells = cellsOrEmpty j;
          (colCount, rowCount) = countLoop cells (0, 0)
      in assignLoop B opts cells (setupLoop opts colCount 0 []))"

text \<open>
  The columns after the third loop has handled the first \<open>n\<close> cells of the feed.
\<close>

definition columnsAfter ::
  "'n::{numeral,times} builtins \<Rightarrow> 'n options \<Rightarrow> json \<Rightarrow> nat \<Rightarrow> error + 'n columns" where
  "columnsAfter B opts j n =
     (let cells = cellsOrEmpty j;
          (colCount, rowCount) = countLoop cells (0, 0)
      in assignLoop B opts (take n cells) (setupLoop opts colCount 0 []))"

definition getSheetColumns ::
  "'n::{numeral,times} builtins \<Rightarrow> 'n options \<Rightarrow> json \<Rightarrow> error + 'n columns" where
  "getSheetColumns B opts j =
     (let cells = cellsOrEmpty j;
          cellCount = length cells;
          (colCount, rowCount) = countLoop cells (0, 0)
      in case assignLoop B opts cells (setupLoop opts colCount 0 []) of
           Inl e \<Rightarrow> Inl e
         | Inr cols \<Rightarrow> fillOuter colCount cellCount 0 cols)"

section \<open>The store, its events and the load cycle\<close>

text \<open>
  What the external table builder \<open>DataParser.columnArrayToDataTable\<close> is handed: the columns
  and the headers. The table's own structure belongs to that collaborator.
\<close>

datatype 'n table = DataTable "'n columns" "string list"

text \<open>The payload of each event.\<close>

datatype 'n args =
    LoadArgs json bool 'n
  | ParseArgs json
  | AfterParseArgs "'n columns"
  | AfterLoadArgs "'n table"
  | FailArgs string

text \<open>
  Everything the store does to the outside, in order: the request it issues, the events it
  fires, the tables it has built and the timers it sets.
\<close>

datatype 'n effect =
    AjaxGet string
  | Fired string "'n args"
  | ColumnArrayToDataTable "'n columns" "string list"
  | SetTimeout 'n

text \<open>
  The store object: the two fields of the class, and the trace of its effects so far.
\<close>

record 'n store =
  options :: "'n options"
  columns :: "'n columns"
  trace :: "'n effect list"

text \<open>
  The constructor, after \<open>merge(defaultOptions, options)\<close> has produced the options: the
  column cache starts empty.
\<close>

definition newStore :: "'n options \<Rightarrow> 'n store" where
  "newStore opts = \<lparr> options = opts, columns = [], trace = [] \<rparr>"

type_synonym ('n, 'a) proc = "'n store \<Rightarrow> (error + 'a) \<times> 'n store"

text \<open>
  Modelled from the spec: \<open>fireEvent\<close> of \<open>Core/Utilities\<close> is not among the sources. The
  spec describes it as "an event-emission facility supporting named events with payload and an
  optional continuation callback invoked after all listeners run". The emission is recorded in
  the trace and the continuation, when there is one, runs next; listeners only observe.
\<close>

definition fireEvent ::
  "string \<Rightarrow> 'n args \<Rightarrow> ('n, unit) proc option \<Rightarrow> ('n, unit) proc" where
  "fireEvent type eventArguments defaultFunction st =
     (let st' = st\<lparr>trace := trace st @ [Fired type eventArguments]\<rparr> in
      case defaultFunction of
        None \<Rightarrow> (Inr (), st')
      | Some f \<Rightarrow> f st')"

text \<open>
  \<open>parseSheet\<close> returns \<open>false\<close> (\<open>Some False\<close>) at its guard and \<open>undefined\<close> (\<open>None\<close>) at its
  end. An exception of \<open>getSheetColumns\<close> leaves through \<open>fireEvent\<close>.
\<close>

definition parseSheet :: "'n::{numeral,times} builtins \<Rightarrow> json \<Rightarrow> ('n, bool option) proc" where
  "parseSheet B j st =
     (if feed_entry j = None \<or> length (cellsOrEmpty j) = 0 then (Inr (Some False), st)
      else
        (case fireEvent ''parse'' (ParseArgs j)
                (Some (\<lambda>st.
                   case getSheetColumns B (options st) j of
                     Inl e \<Rightarrow> (Inl e, st)
                   | Inr cols \<Rightarrow>
                       fireEvent ''afterParse'' (AfterParseArgs cols) None
                         (st\<lparr>columns := cols\<rparr>))) st of
           (Inl e, st') \<Rightarrow> (Inl e, st')
         | (Inr u, st') \<Rightarrow> (Inr None, st')))"

text \<open>The coercion \<open>'' + x\<close> of a cell value.\<close>

fun toString :: "'n builtins \<Rightarrow> 'n val \<Rightarrow> string" where
  "toString B Undefined = ''undefined''"
| "toString B Null = ''null''"
| "toString B (Num n) = numberToString B n"
| "toString B (Str s) = s"

text \<open>
  The header loop \<open>headers.push('' + store.columns[i][0])\<close> over all of \<open>store.columns\<close>;
  a position without a column raises a \<open>TypeError\<close>.
\<close>

fun headersLoop :: "'n builtins \<Rightarrow> 'n columns \<Rightarrow> string list \<Rightarrow> error + string list" where
  "headersLoop B [] headers = Inr headers"
| "headersLoop B (None # cols) headers = Inl TypeError"
| "headersLoop B (Some column # cols) headers =
     headersLoop B cols (headers @ [toString B (array_get Undefined column 0)])"

text \<open>
  \<open>[..., googleSpreadsheetKey, worksheet, 'public/values?alt=json'].join('/')\<close>.
\<close>

definition sheetUrl :: "'n builtins \<Rightarrow> 'n options \<Rightarrow> string" where
  "sheetUrl B opts =
     ''https://spreadsheets.google.com/feeds/cells'' @ ''/'' @
     googleSpreadsheetKey opts @ ''/'' @
     numberToString B (worksheet opts) @ ''/'' @
     ''public/values?alt=json''"

text \<open>
  The \<open>success\<close> callback of \<open>fetchSheet\<close>. \<open>enablePolling\<close> and \<open>dataRefreshRate\<close> are the
  values \<open>fetchSheet\<close> read from the options when it issued the request; \<open>headers\<close> is the
  list that call created, empty.
\<close>

definition fetchSheet_success ::
  "'n::{numeral,times} builtins \<Rightarrow> bool \<Rightarrow> 'n \<Rightarrow> json \<Rightarrow> ('n, unit) proc" where
  "fetchSheet_success B enablePolling' dataRefreshRate' j st =
     fireEvent ''load'' (LoadArgs j enablePolling' dataRefreshRate')
       (Some (\<lambda>st.
          case parseSheet B j st of
            (Inl e, st1) \<Rightarrow> (Inl e, st1)
          | (Inr r, st1) \<Rightarrow>
              (case headersLoop B (columns st1) [] of
                 Inl e \<Rightarrow> (Inl e, st1)
               | Inr headers \<Rightarrow>
                   (let table = DataTable (columns st1) headers;
                        st2 = st1\<lparr>trace := trace st1 @
                                 [ColumnArrayToDataTable (columns st1) headers]\<rparr>;
                        st3 = (if enablePolling'
                               then st2\<lparr>trace := trace st2 @
                                      [SetTimeout (dataRefreshRate' * 1000)]\<rparr>
                               else st2)
                    in fireEvent ''afterLoad'' (AfterLoadArgs table) None st3)))) st"

text \<open>The \<open>error\<close> callback of \<open>fetchSheet\<close>.\<close>

definition fetchSheet_error :: "string \<Rightarrow> ('n, unit) proc" where
  "fetchSheet_error text st = fireEvent ''fail'' (FailArgs text) None st"

text \<open>
  Modelled from the spec: \<open>ajax\<close> of \<open>Extensions/Ajax\<close> is not among the sources. The spec
  treats the transport as "an opaque async request function returning parsed JSON or an
  error". Issuing the request is recorded in the trace; the reply, when it comes, is handed to
  exactly one of the two callbacks.
\<close>

datatype reply = Success json | Failure string

definition fetchSheet :: "'n builtins \<Rightarrow> ('n, unit) proc" where
  "fetchSheet B st = (Inr (), st\<lparr>trace := trace st @ [AjaxGet (sheetUrl B (options st))]\<rparr>)"

definition ajaxReply ::
  "'n::{numeral,times} builtins \<Rightarrow> bool \<Rightarrow> 'n \<Rightarrow> reply \<Rightarrow> ('n, unit) proc" where
  "ajaxReply B enablePolling' dataRefreshRate' r st =
     (case r of
        Success j \<Rightarrow> fetchSheet_success B enablePolling' dataRefreshRate' j st
      | Failure text \<Rightarrow> fetchSheet_error text st)"

text \<open>\<open>load\<close>: a non-empty string is truthy.\<close>

definition load :: "'n builtins \<Rightarrow> ('n, unit) proc" where
  "load B st = (if googleSpreadsheetKey (options st) \<noteq> [] then fetchSheet B st else (Inr (), st))"

text \<open>
  One load cycle: \<open>load\<close>, then the transport's reply delivered to the callbacks of the
  request, if one was issued.
\<close>

definition loadCycle :: "'n::{numeral,times} builtins \<Rightarrow> reply \<Rightarrow> ('n, unit) proc" where
  "loadCycle B r st =
     (if googleSpreadsheetKey (options st) \<noteq> [] then
        (case fetchSheet B st of
           (Inl e, st') \<Rightarrow> (Inl e, st')
         | (Inr u, st') \<Rightarrow>
             ajaxReply B (enablePolling (options st)) (dataRefreshRate (options st)) r st')
      else load B st)"

section \<open>Builtins on the integers\<close>

text \<open>
  To run the model on concrete feeds the builtins are read on the integers: \<open>parseFloat\<close> on a
  string of decimal digits is the number the digits denote, and a non-negative integer prints
  as its decimal digits. JavaScript agrees on such inputs (the doubles are exact below
  \<open>2^53\<close>); the examples apply the two functions to no other input.
\<close>

definition digitsValue :: "string \<Rightarrow> int" where
  "digitsValue s = foldl (\<lambda>a c. 10 * a + (int (of_char c) - 48)) 0 s"

fun natDigits :: "nat \<Rightarrow> string" where
  "natDigits n =
     (if n < 10 then [char_of (48 + n)]
      else natDigits (n div 10) @ [char_of (48 + n mod 10)])"

declare natDigits.simps [simp del]

definition intBuiltins :: "int builtins" where
  "intBuiltins = \<lparr> parseFloat = digitsValue, numberToString = (\<lambda>n. natDigits (nat n)) \<rparr>"

section \<open>Predicates used in statements and proofs\<close>

text \<open>
  The closed form of what the second loop has built once it has gone through the column
  indices below \<open>n\<close>: an empty column at \<open>i - startColumn\<close> for every index \<open>i\<close> from
  \<open>max 0 startColumn\<close> up to \<open>min (n - 1) endColumn\<close>, after \<open>- startColumn\<close> positions
  without a column when \<open>startColumn\<close> is negative.
\<close>

definition windowColumns :: "'n options \<Rightarrow> int \<Rightarrow> 'n columns" where
  "windowColumns opts n =
     (let lo = max 0 (startColumn opts);
          hi = min (n - 1) (endColumn opts)
      in if lo \<le> hi
         then replicate (nat (lo - startColumn opts)) None @
              replicate (nat (hi - lo + 1)) (Some [])
         else [])"

text \<open>
  The invariant of the third loop: every column index below \<open>colCount\<close> that lies inside the
  column window has its column.
\<close>

definition columnsCreated :: "'n options \<Rightarrow> int \<Rightarrow> 'n columns \<Rightarrow> bool" where
  "columnsCreated opts colCount cols =
     list_all
       (\<lambda>i. startColumn opts \<le> int i \<and> int i \<le> endColumn opts \<longrightarrow>
            array_get None cols (nat (int i - startColumn opts)) \<noteq> None)
       [0..<nat colCount]"

section \<open>Arrays and \<open>indexOf\<close>\<close>

lemma indexOf_bounds: "- 1 \<le> indexOf s c"
  by (induction s) (auto simp: Let_def)

lemma indexOf_nonneg_iff: "0 \<le> indexOf s c \<longleftrightarrow> c \<in> set s"
  by (induction s) (auto simp: Let_def)

lemma indexOf_pos_iff: "0 < indexOf s c \<longleftrightarrow> s \<noteq> [] \<and> hd s \<noteq> c \<and> c \<in> set (tl s)"
proof (cases s)
  case Nil
  then show ?thesis by simp
next
  case (Cons x xs)
  have "0 \<le> indexOf xs c \<longleftrightarrow> c \<in> set xs" by (rule indexOf_nonneg_iff)
  with Cons show ?thesis by (auto simp: Let_def)
qed

lemma array_get_set_same: "array_get h (array_set h xs i v) i = v"
  by (simp add: array_get_def array_set_def nth_append)

lemma array_get_Some_length: "array_get None xs i = Some y \<Longrightarrow> i < length xs"
  by (simp add: array_get_def split: if_splits)

lemma array_get_update_same: "i < length xs \<Longrightarrow> array_get h (xs[i := v]) i = v"
  by (simp add: array_get_def)

section \<open>The fill loop always raises\<close>

text \<open>
  In the inner loop \<open>j\<close> stays 0, so its test \<open>j < cellCount\<close> never turns false once it was
  true: the loop walks \<open>i\<close> up the Column Set and ends with the \<open>TypeError\<close> of reading
  \<open>columns[i][0]\<close> at the first position without a column.
\<close>

lemma fillInner_throws: "j < cellCount \<Longrightarrow> fillInner cellCount i j cols = Inl TypeError"
proof (induction cellCount i j cols rule: fillInner.induct)
  case (1 cellCount i j cols)
  show ?case
  proof (cases "array_get None cols i")
    case None
    with "1.prems" show ?thesis by (simp add: fillInner.simps [of cellCount i j cols])
  next
    case (Some column)
    with "1.prems" "1.IH" [OF "1.prems" Some "1.prems"] show ?thesis
      by (simp add: fillInner.simps [of cellCount i j cols])
  qed
qed

lemma fillOuter_throws:
  "int i < colCount \<Longrightarrow> 0 < cellCount \<Longrightarrow> fillOuter colCount cellCount i cols = Inl TypeError"
  by (simp add: fillOuter.simps [of colCount cellCount i cols] fillInner_throws)

lemma countLoop_fst:
  "fst (countLoop cells (a, b)) = fold (\<lambda>c m. max m (col c)) cells a"
  by (induction cells arbitrary: a b) auto

lemma fold_max_ge: "a \<le> fold (\<lambda>c m. max m (col c)) cells (a::int)"
proof (induction cells arbitrary: a)
  case Nil
  show ?case by simp
next
  case (Cons c cells)
  have "a \<le> max a (col c)" by simp
  also have "\<dots> \<le> fold (\<lambda>c m. max m (col c)) cells (max a (col c))" by (rule Cons.IH)
  finally show ?case by simp
qed

lemma fold_max_member: "c \<in> set cells \<Longrightarrow> col c \<le> fold (\<lambda>c m. max m (col c)) cells (a::int)"
proof (induction cells arbitrary: a)
  case Nil
  then show ?case by simp
next
  case (Cons d cells)
  show ?case
  proof (cases "c = d")
    case True
    have "col c \<le> max a (col d)" using True by simp
    also have "\<dots> \<le> fold (\<lambda>c m. max m (col c)) cells (max a (col d))" by (rule fold_max_ge)
    finally show ?thesis by simp
  next
    case False
    with Cons.prems have "c \<in> set cells" by simp
    from Cons.IH [OF this] show ?thesis by simp
  qed
qed

lemma getSheetColumns_throws:
  assumes "c \<in> set cells" and "1 \<le> col c"
  shows "getSheetColumns B opts (Json (Some cells)) = Inl TypeError"
proof -
  obtain colCount rowCount where cl: "countLoop cells (0, 0) = (colCount, rowCount)"
    by (cases "countLoop cells (0, 0)")
  have "col c \<le> fst (countLoop cells (0, 0))"
    unfolding countLoop_fst using assms(1) by (rule fold_max_member)
  with cl assms(2) have pos: "int 0 < colCount" by simp
  from assms(1) have len: "0 < length cells" by (cases cells) auto
  show ?thesis
  proof (cases "assignLoop B opts cells (setupLoop opts colCount 0 [])")
    case (Inl e)
    then show ?thesis by (cases e) (simp add: getSheetColumns_def cellsOrEmpty_def cl)
  next
    case (Inr cols)
    then show ?thesis
      by (simp add: getSheetColumns_def cellsOrEmpty_def cl fillOuter_throws [OF pos len])
  qed
qed

text \<open>
  Whatever the fill loop does, it stores into columns that exist: it never changes how many
  positions the Column Set has.
\<close>

lemma fillInner_length:
  "fillInner cellCount i j cols = Inr (i', cols') \<Longrightarrow> length cols' = length cols"
proof (induction cellCount i j cols rule: fillInner.induct)
  case (1 cellCount i j cols)
  show ?case
  proof (cases "j < cellCount")
    case False
    with "1.prems" show ?thesis by (simp add: fillInner.simps [of cellCount i j cols])
  next
    case True
    show ?thesis
    proof (cases "array_get None cols i")
      case None
      with True "1.prems" show ?thesis by (simp add: fillInner.simps [of cellCount i j cols])
    next
      case (Some column)
      from True Some "1.prems" "1.IH" [OF True Some] show ?thesis
        by (simp add: fillInner.simps [of cellCount i j cols] split: if_splits)
    qed
  qed
qed

lemma fillOuter_length:
  "fillOuter colCount cellCount i cols = Inr cols' \<Longrightarrow> length cols' = length cols"
proof (induction colCount cellCount i cols rule: fillOuter.induct)
  case (1 colCount cellCount i cols)
  show ?case
  proof (cases "int i < colCount")
    case False
    with "1.prems" show ?thesis by (simp add: fillOuter.simps [of colCount cellCount i cols])
  next
    case True
    show ?thesis
    proof (cases "fillInner cellCount i 0 cols")
      case (Inl e)
      with True "1.prems" show ?thesis by (simp add: fillOuter.simps [of colCount cellCount i cols])
    next
      case (Inr p)
      obtain i' cols1 where p: "p = (i', cols1)" by (cases p)
      from Inr p have l1: "length cols1 = length cols" by (simp add: fillInner_length)
      from True Inr p "1.prems" have "fillOuter colCount cellCount (i' + 1) cols1 = Inr cols'"
        by (simp add: fillOuter.simps [of colCount cellCount i cols])
      from "1.IH" [OF True Inr [unfolded p] refl this] l1 show ?thesis by simp
    qed
  qed
qed

lemma getSheetColumns_length:
  "getSheetColumns B opts j = Inr cols \<Longrightarrow>
   \<exists>cols0. assignedColumns B opts j = Inr cols0 \<and> length cols = length cols0"
  by (auto simp: getSheetColumns_def assignedColumns_def Let_def
           split: prod.splits sum.splits dest: fillOuter_length)

section \<open>The assignment loop\<close>

lemma assignCell_stores:
  assumes "inWindow opts c"
    and "array_get None cols (nat (col c - 1 - startColumn opts)) = Some column"
  shows "\<exists>cols'. assignCell B opts c cols = Inr cols' \<and>
           columnsAt cols' (nat (col c - 1 - startColumn opts)) (nat (row c - 1 - startRow opts))
             = Inr (cellValue B c)"
proof -
  let ?k = "nat (col c - 1 - startColumn opts)"
  let ?r = "nat (row c - 1 - startRow opts)"
  let ?cols' = "cols[?k := Some (array_set Undefined column ?r (cellValue B c))]"
  from assms(2) have k: "?k < length cols" by (rule array_get_Some_length)
  have step: "assignCell B opts c cols = Inr ?cols'"
    using assms by (simp add: assignCell_def Let_def)
  have "columnsAt ?cols' ?k ?r = Inr (cellValue B c)"
    using k by (simp add: columnsAt_def array_get_update_same array_get_set_same)
  with step show ?thesis by blast
qed

lemma assignCell_outside: "\<not> inWindow opts c \<Longrightarrow> assignCell B opts c cols = Inr cols"
  by (simp add: assignCell_def Let_def)

lemma assignLoop_outside:
  "\<forall>c\<in>set cells. \<not> inWindow opts c \<Longrightarrow> assignLoop B opts cells cols = Inr cols"
  by (induction cells arbitrary: cols) (simp_all add: assignCell_outside)

subsection \<open>What the second loop builds\<close>

lemma windowColumns_0: "windowColumns opts 0 = []"
  by (simp add: windowColumns_def Let_def)

lemma windowColumns_step:
  assumes "0 \<le> i"
  shows "(if startColumn opts \<le> i \<and> i \<le> endColumn opts
          then array_set None (windowColumns opts i) (nat (i - startColumn opts)) (Some [])
          else windowColumns opts i) = windowColumns opts (i + 1)"
proof (cases "startColumn opts \<le> i \<and> i \<le> endColumn opts")
  case False
  then show ?thesis using assms by (auto simp: windowColumns_def Let_def min_def max_def)
next
  case True
  let ?lo = "max 0 (startColumn opts)"
  from True assms have lo: "?lo \<le> i" by simp
  from True have hi1: "min (i + 1 - 1) (endColumn opts) = i" by simp
  from True have hi0: "min (i - 1) (endColumn opts) = i - 1" by simp
  show ?thesis
  proof (cases "?lo = i")
    case eq: True
    have w0: "windowColumns opts i = []"
      using eq True assms by (auto simp: windowColumns_def Let_def min_def max_def)
    have w1: "windowColumns opts (i + 1) = replicate (nat (i - startColumn opts)) None @ [Some []]"
      using eq True assms by (auto simp: windowColumns_def Let_def min_def max_def)
    from True w0 w1 show ?thesis by (simp add: array_set_def)
  next
    case False
    with lo have lt: "?lo \<le> i - 1" by arith
    have w0: "windowColumns opts i =
        replicate (nat (?lo - startColumn opts)) None @ replicate (nat (i - ?lo)) (Some [])"
      using lt True assms by (auto simp: windowColumns_def Let_def min_def max_def)
    have w1: "windowColumns opts (i + 1) =
        replicate (nat (?lo - startColumn opts)) None @ replicate (nat (i - ?lo + 1)) (Some [])"
      using lt True assms by (auto simp: windowColumns_def Let_def min_def max_def)
    have len: "length (windowColumns opts i) = nat (i - startColumn opts)"
      unfolding w0 using lt True assms by (auto simp: max_def)
    have r: "replicate (nat (i - ?lo + 1)) (Some []) = replicate (nat (i - ?lo)) (Some ([] :: 'a column)) @ [Some []]"
    proof -
      from lo have "nat (i - ?lo + 1) = Suc (nat (i - ?lo))" by arith
      then show ?thesis by (simp only: replicate_Suc replicate_append_same)
    qed
    have A: "array_set None (windowColumns opts i) (nat (i - startColumn opts)) (Some []) =
          windowColumns opts i @ [Some []]"
      by (simp add: array_set_def len)
    have B: "windowColumns opts i @ [Some []] = windowColumns opts (i + 1)"
      unfolding w0 w1 r by (simp only: append_assoc)
    show ?thesis by (simp only: if_P [OF True] A B)
  qed
qed

lemma setupLoop_window:
  "0 \<le> i \<Longrightarrow> cols = windowColumns opts i \<Longrightarrow>
   setupLoop opts colCount i cols = windowColumns opts (max i colCount)"
proof (induction opts colCount i cols rule: setupLoop.induct)
  case (1 opts colCount i cols)
  show ?case
  proof (cases "i < colCount")
    case False
    with "1.prems" show ?thesis by (subst setupLoop.simps) (simp add: max_def)
  next
    case True
    from "1.prems" have "0 \<le> i + 1" by simp
    moreover have "(if startColumn opts \<le> i \<and> i \<le> endColumn opts
            then array_set None cols (nat (i - startColumn opts)) (Some []) else cols)
          = windowColumns opts (i + 1)"
      unfolding "1.prems"(2) using "1.prems"(1) by (rule windowColumns_step)
    ultimately have "setupLoop opts colCount (i + 1)
        (if startColumn opts \<le> i \<and> i \<le> endColumn opts
         then array_set None cols (nat (i - startColumn opts)) (Some []) else cols)
        = windowColumns opts (max (i + 1) colCount)"
      by (rule "1.IH" [OF True])
    with True show ?thesis by (subst setupLoop.simps) (simp add: max_def)
  qed
qed

lemma setupLoop_exact:
  "0 \<le> colCount \<Longrightarrow> setupLoop opts colCount 0 [] = windowColumns opts colCount"
  using setupLoop_window [of 0 "[]" opts colCount] by (simp add: windowColumns_0)

subsection \<open>The columns of in-window cells exist\<close>

lemma array_get_set_created:
  "k' = k \<or> array_get None xs k' \<noteq> None \<Longrightarrow>
   array_get None (array_set None xs k (Some v)) k' \<noteq> None"
  by (auto simp: array_get_def array_set_def nth_append nth_list_update split: if_splits)

lemma setupLoop_creates:
  assumes "0 \<le> g" and "g < colCount" and "startColumn opts \<le> g" and "g \<le> endColumn opts"
  shows "i \<le> g \<or> array_get None cols (nat (g - startColumn opts)) \<noteq> None \<Longrightarrow>
         array_get None (setupLoop opts colCount i cols) (nat (g - startColumn opts)) \<noteq> None"
  using assms
proof (induction opts colCount i cols rule: setupLoop.induct)
  case (1 opts colCount i cols)
  show ?case
  proof (cases "i < colCount")
    case False
    with "1.prems" show ?thesis by (simp add: setupLoop.simps [of opts colCount i cols])
  next
    case True
    let ?cols = "if startColumn opts \<le> i \<and> i \<le> endColumn opts
                 then array_set None cols (nat (i - startColumn opts)) (Some []) else cols"
    have "i + 1 \<le> g \<or> array_get None ?cols (nat (g - startColumn opts)) \<noteq> None"
    proof (cases "i = g")
      case True
      with "1.prems" show ?thesis by (simp add: array_get_set_created)
    next
      case False
      with "1.prems"(1) show ?thesis by (auto simp: array_get_set_created)
    qed
    from "1.IH" [OF True this "1.prems"(2-5)] True show ?thesis
      by (simp add: setupLoop.simps [of opts colCount i cols])
  qed
qed

lemma columnsCreated_iff:
  "columnsCreated opts colCount cols \<longleftrightarrow>
     (\<forall>g. 0 \<le> g \<and> g < colCount \<and> startColumn opts \<le> g \<and> g \<le> endColumn opts \<longrightarrow>
          array_get None cols (nat (g - startColumn opts)) \<noteq> None)"
proof
  assume c: "columnsCreated opts colCount cols"
  show "\<forall>g. 0 \<le> g \<and> g < colCount \<and> startColumn opts \<le> g \<and> g \<le> endColumn opts \<longrightarrow>
          array_get None cols (nat (g - startColumn opts)) \<noteq> None"
  proof (intro allI impI)
    fix g
    assume g: "0 \<le> g \<and> g < colCount \<and> startColumn opts \<le> g \<and> g \<le> endColumn opts"
    then have "nat g \<in> set [0..<nat colCount]" and "int (nat g) = g" by simp_all
    with c g show "array_get None cols (nat (g - startColumn opts)) \<noteq> None"
      unfolding columnsCreated_def list_all_iff by metis
  qed
next
  assume a: "\<forall>g. 0 \<le> g \<and> g < colCount \<and> startColumn opts \<le> g \<and> g \<le> endColumn opts \<longrightarrow>
          array_get None cols (nat (g - startColumn opts)) \<noteq> None"
  show "columnsCreated opts colCount cols"
    unfolding columnsCreated_def list_all_iff
  proof (intro ballI impI)
    fix i
    assume "i \<in> set [0..<nat colCount]"
      and "startColumn opts \<le> int i \<and> int i \<le> endColumn opts"
    then have "0 \<le> int i \<and> int i < colCount \<and> startColumn opts \<le> int i \<and> int i \<le> endColumn opts"
      by auto
    with a show "array_get None cols (nat (int i - startColumn opts)) \<noteq> None" by blast
  qed
qed

lemma setupLoop_columnsCreated: "columnsCreated opts colCount (setupLoop opts colCount 0 [])"
  unfolding columnsCreated_iff
proof (intro allI impI)
  fix g
  assume "0 \<le> g \<and> g < colCount \<and> startColumn opts \<le> g \<and> g \<le> endColumn opts"
  then show "array_get None (setupLoop opts colCount 0 []) (nat (g - startColumn opts)) \<noteq> None"
    by (intro setupLoop_creates) simp_all
qed

lemma assignCell_keeps:
  "assignCell B opts c cols = Inr cols' \<Longrightarrow> array_get None cols k \<noteq> None \<Longrightarrow>
   array_get None cols' k \<noteq> None"
  by (auto simp: assignCell_def Let_def array_get_def nth_list_update split: if_splits option.splits)

lemma assignCell_columnsCreated:
  "assignCell B opts c cols = Inr cols' \<Longrightarrow> columnsCreated opts colCount cols \<Longrightarrow>
   columnsCreated opts colCount cols'"
  unfolding columnsCreated_iff
proof (intro allI impI)
  fix g
  assume a: "assignCell B opts c cols = Inr cols'"
    and all: "\<forall>g. 0 \<le> g \<and> g < colCount \<and> startColumn opts \<le> g \<and> g \<le> endColumn opts \<longrightarrow>
                 array_get None cols (nat (g - startColumn opts)) \<noteq> None"
    and g: "0 \<le> g \<and> g < colCount \<and> startColumn opts \<le> g \<and> g \<le> endColumn opts"
  from all g have "array_get None cols (nat (g - startColumn opts)) \<noteq> None" by blast
  with a show "array_get None cols' (nat (g - startColumn opts)) \<noteq> None"
    by (rule assignCell_keeps)
qed

lemma assignCell_succeeds:
  assumes "columnsCreated opts colCount cols"
    and "inWindow opts c \<longrightarrow> 0 \<le> col c - 1 \<and> col c - 1 < colCount"
  shows "\<exists>cols'. assignCell B opts c cols = Inr cols'"
proof (cases "inWindow opts c")
  case False
  then show ?thesis by (simp add: assignCell_outside)
next
  case True
  with assms have "array_get None cols (nat (col c - 1 - startColumn opts)) \<noteq> None"
    by (simp add: columnsCreated_iff inWindow_def Let_def)
  then obtain column where "array_get None cols (nat (col c - 1 - startColumn opts)) = Some column"
    by blast
  with True show ?thesis by (simp add: assignCell_def Let_def)
qed

lemma assignLoop_succeeds:
  assumes "columnsCreated opts colCount cols"
    and "\<forall>c\<in>set cells. inWindow opts c \<longrightarrow> 0 \<le> col c - 1 \<and> col c - 1 < colCount"
  shows "\<exists>cols'. assignLoop B opts cells cols = Inr cols' \<and> columnsCreated opts colCount cols'"
  using assms
proof (induction cells arbitrary: cols)
  case Nil
  then show ?case by simp
next
  case (Cons c cells)
  from Cons.prems obtain cols1 where s: "assignCell B opts c cols = Inr cols1"
    using assignCell_succeeds [of opts colCount cols c B] by auto
  from s Cons.prems(1) have "columnsCreated opts colCount cols1"
    by (rule assignCell_columnsCreated)
  from Cons.IH [OF this] Cons.prems(2) s show ?case by simp
qed

lemma assignLoop_append:
  "assignLoop B opts (xs @ ys) cols =
     (case assignLoop B opts xs cols of Inl e \<Rightarrow> Inl e | Inr cols' \<Rightarrow> assignLoop B opts ys cols')"
  by (induction xs arbitrary: cols) (simp_all split: sum.splits)

text \<open>
  Handling cell \<open>i\<close> of a feed stores its value: with a window that starts at a column
  index of at least 0, or a feed whose column indices are all at least 1, the third loop gets
  as far as cell \<open>i\<close> without an exception, and after that iteration the cell's position
  reads back as the cell's value.
\<close>

lemma cell_stored:
  assumes wf: "0 \<le> startColumn opts \<or> list_all (\<lambda>c. 1 \<le> col c) cells"
    and i: "i < length cells"
    and w: "inWindow opts (cells ! i)"
  shows "\<exists>cols'. columnsAfter B opts (Json (Some cells)) (Suc i) = Inr cols' \<and>
           columnsAt cols' (nat (col (cells ! i) - 1 - startColumn opts))
                           (nat (row (cells ! i) - 1 - startRow opts))
             = Inr (cellValue B (cells ! i))"
proof -
  obtain colCount rowCount where cl: "countLoop cells (0, 0) = (colCount, rowCount)"
    by (cases "countLoop cells (0, 0)")
  have cc: "colCount = fold (\<lambda>c m. max m (col c)) cells 0"
    using countLoop_fst [of cells 0 0] cl by simp
  have bound: "inWindow opts c \<longrightarrow> 0 \<le> col c - 1 \<and> col c - 1 < colCount"
    if "c \<in> set cells" for c
  proof
    assume iw: "inWindow opts c"
    from that have "col c \<le> colCount" unfolding cc by (rule fold_max_member)
    moreover from wf iw that have "0 \<le> col c - 1"
      by (auto simp: inWindow_def Let_def list_all_iff)
    ultimately show "0 \<le> col c - 1 \<and> col c - 1 < colCount" by simp
  qed
  have "\<forall>c\<in>set (take i cells). inWindow opts c \<longrightarrow> 0 \<le> col c - 1 \<and> col c - 1 < colCount"
    using bound by (blast dest: in_set_takeD)
  with setupLoop_columnsCreated [of opts colCount]
  obtain cols where pre: "assignLoop B opts (take i cells) (setupLoop opts colCount 0 []) = Inr cols"
    and cr: "columnsCreated opts colCount cols"
    using assignLoop_succeeds by blast
  from i have mem: "cells ! i \<in> set cells" by simp
  from bound [OF mem] w cr
  have "array_get None cols (nat (col (cells ! i) - 1 - startColumn opts)) \<noteq> None"
    by (simp add: columnsCreated_iff inWindow_def Let_def)
  then obtain column
    where "array_get None cols (nat (col (cells ! i) - 1 - startColumn opts)) = Some column"
    by blast
  from assignCell_stores [OF w this, of B]
  obtain cols' where st: "assignCell B opts (cells ! i) cols = Inr cols'"
    and at: "columnsAt cols' (nat (col (cells ! i) - 1 - startColumn opts))
               (nat (row (cells ! i) - 1 - startRow opts)) = Inr (cellValue B (cells ! i))"
    by blast
  from i have "take (Suc i) cells = take i cells @ [cells ! i]"
    by (rule take_Suc_conv_app_nth)
  with pre st have "columnsAfter B opts (Json (Some cells)) (Suc i) = Inr cols'"
    by (simp add: columnsAfter_def cellsOrEmpty_def cl assignLoop_append)
  with at show ?thesis by blast
qed

section \<open>Values of a cell\<close>

lemma cellValue_date:
  "truthy (numericValue c) \<Longrightarrow> CHR ''/'' \<in> set (dollar_t c) \<or> CHR ''-'' \<in> set (dollar_t c) \<Longrightarrow>
   cellValue B c = Str (dollar_t c)"
  by (simp add: cellValue_def indexOf_nonneg_iff)

lemma cellValue_percent:
  "numericValue c = Some nv \<Longrightarrow> nv \<noteq> [] \<Longrightarrow>
   CHR ''/'' \<notin> set (dollar_t c) \<Longrightarrow> CHR ''-'' \<notin> set (dollar_t c) \<Longrightarrow>
   0 < indexOf (dollar_t c) CHR ''%'' \<Longrightarrow>
   cellValue B c = Num (parseFloat B nv * 100)"
  by (simp add: cellValue_def indexOf_nonneg_iff truthy_def)

section \<open>The guard of \<open>parseSheet\<close>\<close>

lemma parseSheet_guard:
  "feed_entry j = None \<or> feed_entry j = Some [] \<Longrightarrow> parseSheet B j st = (Inr (Some False), st)"
  by (auto simp: parseSheet_def cellsOrEmpty_def)

lemma sheetUrl_example:
  "sheetUrl intBuiltins (defaultOptions\<lparr>googleSpreadsheetKey := ''k''\<rparr>) =
     ''https://spreadsheets.google.com/feeds/cells/k/1/public/values?alt=json''"
  by code_simp

section \<open>The claims\<close>

subsection \<open>C1: a feed with zero entries\<close>

text \<open>
  C1, as stated, fails: for a fetched payload whose feed has zero entries the \<open>success\<close>
  callback does not stop after the guard of \<open>parseSheet\<close>. On a fresh store it builds a table
  from the empty column cache and fires \<open>afterLoad\<close> with it.
\<close>

theorem empty_feed_counterexample:
  "fetchSheet_success intBuiltins False 2 (Json (Some [])) (newStore defaultOptions) =
     (Inr (), \<lparr> options = defaultOptions, columns = [],
                trace = [Fired ''load'' (LoadArgs (Json (Some [])) False 2),
                         ColumnArrayToDataTable [] [],
                         Fired ''afterLoad'' (AfterLoadArgs (DataTable [] []))] \<rparr>)"
  by (simp add: fetchSheet_success_def fireEvent_def parseSheet_def cellsOrEmpty_def newStore_def)

text \<open>
  C1, amended: for every fetched payload whose feed has no entries (missing or of length
  zero), \<open>parseSheet\<close> stops at its guard, so neither \<open>parse\<close> nor \<open>afterParse\<close> is fired and
  the columns of the store stay as they were; the cycle itself goes on: after \<open>load\<close> the
  headers and the table are built from the columns the store already holds, the polling timer
  is set when polling is enabled, and \<open>afterLoad\<close> is fired with that table. (The header loop
  needs a column at every position of the cache, as it always has on a fresh store.)
\<close>

theorem empty_feed_cycle:
  assumes "feed_entry j = None \<or> feed_entry j = Some []"
    and "headersLoop B (columns st) [] = Inr headers"
  shows "fetchSheet_success B ep rate j st =
     (Inr (), st\<lparr>trace := trace st @
        [Fired ''load'' (LoadArgs j ep rate), ColumnArrayToDataTable (columns st) headers] @
        (if ep then [SetTimeout (rate * 1000)] else []) @
        [Fired ''afterLoad'' (AfterLoadArgs (DataTable (columns st) headers))]\<rparr>)"
  using assms(2)
  by (simp add: fetchSheet_success_def fireEvent_def parseSheet_guard [OF assms(1)] Let_def)

text \<open>Witness of C1 amended: a payload without \<open>feed.entry\<close>, polling enabled, fresh store.\<close>

theorem empty_feed_cycle_witness:
  "fetchSheet_success intBuiltins True 2 (Json None) (newStore defaultOptions) =
     (Inr (), \<lparr> options = defaultOptions, columns = [],
                trace = [Fired ''load'' (LoadArgs (Json None) True 2),
                         ColumnArrayToDataTable [] [],
                         SetTimeout 2000,
                         Fired ''afterLoad'' (AfterLoadArgs (DataTable [] []))] \<rparr>)"
  using empty_feed_cycle [of "Json None" intBuiltins "newStore defaultOptions" "[]" True 2]
  by (simp add: newStore_def)

subsection \<open>C2 and C3: what \<open>getSheetColumns\<close> returns on a non-empty feed\<close>

text \<open>
  C2 (no gaps in the returned Column Set) is not what the code does. On the feed with cells
  \<open>a\<close> at row 1 and \<open>b\<close> at row 3 of column 1, under the default window, the first three loops
  leave column 0 with a gap at row index 1, and the fill loop that should close it raises a
  \<open>TypeError\<close> at \<open>columns[1][0]\<close>: nothing is returned.
\<close>

theorem fill_loop_gap_throws:
  "assignedColumns intBuiltins defaultOptions
     (Json (Some [\<lparr> row = 1, col = 1, numericValue = None, dollar_t = ''a'' \<rparr>,
                  \<lparr> row = 3, col = 1, numericValue = None, dollar_t = ''b'' \<rparr>]))
     = Inr [Some [Str ''a'', Undefined, Str ''b'']] \<and>
   getSheetColumns intBuiltins defaultOptions
     (Json (Some [\<lparr> row = 1, col = 1, numericValue = None, dollar_t = ''a'' \<rparr>,
                  \<lparr> row = 3, col = 1, numericValue = None, dollar_t = ''b'' \<rparr>]))
     = Inl TypeError"
  by code_simp

text \<open>
  C3 (the single cell at row 1, column 1 with numeric value 5 gives \<open>[[5]]\<close>) is not what the
  code does either: the first three loops do build \<open>[[5]]\<close>, then the fill loop raises the
  \<open>TypeError\<close> and \<open>getSheetColumns\<close> returns nothing.
\<close>

theorem single_cell_throws:
  "getSheetColumns intBuiltins defaultOptions
     (Json (Some [\<lparr> row = 1, col = 1, numericValue = Some ''5'', dollar_t = ''5'' \<rparr>]))
     = Inl TypeError \<and>
   assignedColumns intBuiltins defaultOptions
     (Json (Some [\<lparr> row = 1, col = 1, numericValue = Some ''5'', dollar_t = ''5'' \<rparr>]))
     = Inr [Some [Num 5]]"
  by code_simp

subsection \<open>C4: entries outside the window\<close>

text \<open>
  C4, as stated, fails: with the row window starting at 5, the single cell at row 1,
  column 1 lies outside the window, yet the Column Set is not empty. Column 0 is inside the
  column window, so the second loop has created it whatever the rows are: after the third
  loop the columns stand as \<open>[[]]\<close>, of length one. The fill loop never changes the number
  of columns, so \<open>getSheetColumns\<close> cannot return the empty Column Set here, with or without
  its exception.
\<close>

theorem outside_window_counterexample:
  "\<not> inWindow (defaultOptions\<lparr>startRow := 5\<rparr> :: int options)
     \<lparr> row = 1, col = 1, numericValue = Some ''5'', dollar_t = ''5'' \<rparr> \<and>
   assignedColumns intBuiltins (defaultOptions\<lparr>startRow := 5\<rparr>)
     (Json (Some [\<lparr> row = 1, col = 1, numericValue = Some ''5'', dollar_t = ''5'' \<rparr>]))
     = Inr [Some []] \<and>
   getSheetColumns intBuiltins (defaultOptions\<lparr>startRow := 5\<rparr>)
     (Json (Some [\<lparr> row = 1, col = 1, numericValue = Some ''5'', dollar_t = ''5'' \<rparr>]))
     \<noteq> Inr []"
proof -
  let ?j = "Json (Some [\<lparr> row = 1, col = 1, numericValue = Some ''5'', dollar_t = ''5'' \<rparr>])"
  let ?opts = "defaultOptions\<lparr>startRow := 5\<rparr> :: int options"
  have w: "\<not> inWindow ?opts \<lparr> row = 1, col = 1, numericValue = Some ''5'', dollar_t = ''5'' \<rparr>"
    by code_simp
  have a: "assignedColumns intBuiltins ?opts ?j = Inr [Some []]" by code_simp
  have g: "getSheetColumns intBuiltins ?opts ?j \<noteq> Inr []"
  proof
    assume "getSheetColumns intBuiltins ?opts ?j = Inr []"
    from getSheetColumns_length [OF this] a show False by simp
  qed
  from w a g show ?thesis by blast
qed

text \<open>
  C4, amended: for every cell feed all of whose entries lie outside the configured window,
  the third loop stores no cell, and the Column Set it leaves is exactly what the second loop
  created: one empty column for each 0-based column index from \<open>max 0 startColumn\<close> up to
  \<open>min (colCount - 1) endColumn\<close>, where \<open>colCount\<close> is the highest column index of the feed
  (after \<open>- startColumn\<close> positions without a column when \<open>startColumn\<close> is negative). It has
  length zero exactly when there is no such index.
\<close>

theorem outside_window_stores_nothing:
  assumes "list_all (\<lambda>c. \<not> inWindow opts c) cells"
  shows "let colCount = fst (countLoop cells (0, 0));
             lo = max 0 (startColumn opts);
             hi = min (colCount - 1) (endColumn opts);
             cols = (if lo \<le> hi
                     then replicate (nat (lo - startColumn opts)) None @
                          replicate (nat (hi - lo + 1)) (Some [])
                     else [])
         in assignedColumns B opts (Json (Some cells)) = Inr cols \<and>
            (cols = [] \<longleftrightarrow> hi < lo)"
proof -
  obtain colCount rowCount where cl: "countLoop cells (0, 0) = (colCount, rowCount)"
    by (cases "countLoop cells (0, 0)")
  have "0 \<le> fold (\<lambda>c m. max m (col c)) cells 0" by (rule fold_max_ge)
  with cl have nonneg: "0 \<le> colCount" using countLoop_fst [of cells 0 0] by simp
  let ?cols = "setupLoop opts colCount 0 []"
  from assms have "\<forall>c\<in>set cells. \<not> inWindow opts c" by (simp add: list_all_iff)
  then have "assignLoop B opts cells ?cols = Inr ?cols" by (rule assignLoop_outside)
  then have "assignedColumns B opts (Json (Some cells)) = Inr ?cols"
    by (simp add: assignedColumns_def cellsOrEmpty_def cl)
  then have res: "assignedColumns B opts (Json (Some cells)) = Inr (windowColumns opts colCount)"
    by (simp add: setupLoop_exact [OF nonneg])
  have "(windowColumns opts colCount = []) \<longleftrightarrow>
        min (colCount - 1) (endColumn opts) < max 0 (startColumn opts)"
    by (auto simp: windowColumns_def Let_def)
  with res show ?thesis by (simp add: cl windowColumns_def Let_def)
qed

text \<open>
  Witness of C4 amended: cells in columns 1 and 5 under the column window 2 to 3 (two empty
  columns); the cell at row 1, column 1 under a row window starting at 5 (one empty column),
  and under a column window starting at 3 (no column).
\<close>

theorem outside_window_stores_nothing_witness:
  "assignedColumns intBuiltins (defaultOptions\<lparr>startColumn := 2, endColumn := 3\<rparr>)
     (Json (Some [\<lparr> row = 1, col = 1, numericValue = Some ''5'', dollar_t = ''5'' \<rparr>,
                  \<lparr> row = 1, col = 5, numericValue = Some ''6'', dollar_t = ''6'' \<rparr>]))
     = Inr [Some [], Some []] \<and>
   assignedColumns intBuiltins (defaultOptions\<lparr>startRow := 5\<rparr>)
     (Json (Some [\<lparr> row = 1, col = 1, numericValue = Some ''5'', dollar_t = ''5'' \<rparr>]))
     = Inr [Some []] \<and>
   assignedColumns intBuiltins (defaultOptions\<lparr>startColumn := 3\<rparr>)
     (Json (Some [\<lparr> row = 1, col = 1, numericValue = Some ''5'', dollar_t = ''5'' \<rparr>]))
     = Inr []"
proof -
  let ?c = "\<lparr> row = 1, col = 1, numericValue = Some ''5'', dollar_t = ''5'' \<rparr>"
  let ?d = "\<lparr> row = 1, col = 5, numericValue = Some ''6'', dollar_t = ''6'' \<rparr>"
  let ?o0 = "defaultOptions\<lparr>startColumn := 2, endColumn := 3\<rparr> :: int options"
  let ?o1 = "defaultOptions\<lparr>startRow := 5\<rparr> :: int options"
  let ?o2 = "defaultOptions\<lparr>startColumn := 3\<rparr> :: int options"
  have m: "(0::int) \<le> Number_MAX_VALUE" by (simp add: Number_MAX_VALUE_def)
  have h0: "list_all (\<lambda>c. \<not> inWindow ?o0 c) [?c, ?d]"
    by (simp add: inWindow_def defaultOptions_def)
  have h1: "list_all (\<lambda>c. \<not> inWindow ?o1 c) [?c]"
    by (simp add: inWindow_def defaultOptions_def)
  have h2: "list_all (\<lambda>c. \<not> inWindow ?o2 c) [?c]"
    by (simp add: inWindow_def defaultOptions_def)
  have v0: "assignedColumns intBuiltins ?o0 (Json (Some [?c, ?d])) = Inr [Some [], Some []]"
    using outside_window_stores_nothing [OF h0, of intBuiltins]
    by (simp add: Let_def defaultOptions_def numeral_2_eq_2)
  have v1: "assignedColumns intBuiltins ?o1 (Json (Some [?c])) = Inr [Some []]"
    using outside_window_stores_nothing [OF h1, of intBuiltins] m
    by (simp add: Let_def defaultOptions_def)
  have v2: "assignedColumns intBuiltins ?o2 (Json (Some [?c])) = Inr []"
    using outside_window_stores_nothing [OF h2, of intBuiltins] m
    by (simp add: Let_def defaultOptions_def)
  from v0 v1 v2 show ?thesis by blast
qed

subsection \<open>C5: percentages\<close>

text \<open>
  C5, as stated, fails: the percentage test is \<open>indexOf('%') > 0\<close>, so a \<open>%\<close> that is the
  first character of the display text does not count. The in-window cell with text \<open>%5\<close> and
  numeric value \<open>5\<close> is stored as 5, not as 500.
\<close>

theorem percent_leading_counterexample:
  "inWindow (defaultOptions :: int options)
     \<lparr> row = 1, col = 1, numericValue = Some ''5'', dollar_t = ''%5'' \<rparr> \<and>
   columnsAfter intBuiltins defaultOptions
     (Json (Some [\<lparr> row = 1, col = 1, numericValue = Some ''5'', dollar_t = ''%5'' \<rparr>])) 1
     = Inr [Some [Num 5]] \<and>
   parseFloat intBuiltins ''5'' * 100 = 500"
  by code_simp

text \<open>
  C5, amended: for every in-window cell that carries a numeric value and whose display text
  contains a \<open>%\<close> sign after its first character, no \<open>%\<close> as first character, and neither
  \<open>/\<close> nor \<open>-\<close>, the value stored at the cell's position is the parsed numeric value
  multiplied by 100. The cell is cell \<open>i\<close> of any feed, in a run of \<open>getSheetColumns\<close> whose
  window starts at a column index of at least 0 or whose feed has column indices of at least
  1; the position is read right after the third loop has handled the cell.
\<close>

theorem percent_value_stored:
  assumes "0 \<le> startColumn opts \<or> list_all (\<lambda>c. 1 \<le> col c) cells"
    and "i < length cells" and "inWindow opts (cells ! i)"
    and "numericValue (cells ! i) = Some nv" and "nv \<noteq> []"
    and "CHR ''/'' \<notin> set (dollar_t (cells ! i))" and "CHR ''-'' \<notin> set (dollar_t (cells ! i))"
    and "dollar_t (cells ! i) = x # rest" and "x \<noteq> CHR ''%''" and "CHR ''%'' \<in> set rest"
  shows "\<exists>cols'. columnsAfter B opts (Json (Some cells)) (Suc i) = Inr cols' \<and>
           columnsAt cols' (nat (col (cells ! i) - 1 - startColumn opts))
                           (nat (row (cells ! i) - 1 - startRow opts))
             = Inr (Num (parseFloat B nv * 100))"
proof -
  have "0 < indexOf (dollar_t (cells ! i)) CHR ''%''"
    unfolding indexOf_pos_iff using assms(8-10) by simp
  with assms(4-7) have "cellValue B (cells ! i) = Num (parseFloat B nv * 100)"
    by (rule cellValue_percent)
  with cell_stored [OF assms(1-3), of B] show ?thesis by simp
qed

text \<open>
  Witness of C5 amended: text \<open>10%\<close> with numeric value \<open>10\<close>, second cell of a feed, is
  stored as 1000.
\<close>

theorem percent_value_stored_witness:
  "columnsAfter intBuiltins defaultOptions
     (Json (Some [\<lparr> row = 1, col = 1, numericValue = None, dollar_t = ''share'' \<rparr>,
                  \<lparr> row = 2, col = 1, numericValue = Some ''10'', dollar_t = ''10%'' \<rparr>])) (Suc 1)
     = Inr [Some [Str ''share'', Num 1000]] \<and>
   columnsAt [Some [Str ''share'', Num 1000]] 0 1 = Inr (Num (1000 :: int))"
proof -
  let ?cells = "[\<lparr> row = 1, col = 1, numericValue = None, dollar_t = ''share'' \<rparr>,
                 \<lparr> row = 2, col = 1, numericValue = Some ''10'', dollar_t = ''10%'' \<rparr>]"
  let ?opts = "defaultOptions :: int options"
  have h1: "0 \<le> startColumn ?opts \<or> list_all (\<lambda>c. 1 \<le> col c) ?cells"
    by (simp add: defaultOptions_def)
  have h2: "1 < length ?cells" by simp
  have h3: "inWindow ?opts (?cells ! 1)" by code_simp
  have p: "parseFloat intBuiltins ''10'' * 100 = 1000" by code_simp
  have v: "columnsAfter intBuiltins ?opts (Json (Some ?cells)) (Suc 1)
             = Inr [Some [Str ''share'', Num 1000]]"
    by code_simp
  from percent_value_stored [OF h1 h2 h3, of "''10''" "CHR ''1''" "''0%''" intBuiltins]
  obtain cols' where "columnsAfter intBuiltins ?opts (Json (Some ?cells)) (Suc 1) = Inr cols'"
    and "columnsAt cols' (nat (col (?cells ! 1) - 1 - startColumn ?opts))
           (nat (row (?cells ! 1) - 1 - startRow ?opts))
         = Inr (Num (parseFloat intBuiltins ''10'' * 100))"
    by auto
  with v p show ?thesis by (simp add: defaultOptions_def)
qed

subsection \<open>C6: date-like text\<close>

text \<open>
  C6: for every in-window cell that carries a numeric value and whose display text contains
  \<open>/\<close> or \<open>-\<close>, the value stored at the cell's position is the display text itself, unchanged.
  The cell is cell \<open>i\<close> of any feed, in a run of \<open>getSheetColumns\<close> whose window starts at a
  column index of at least 0 or whose feed has column indices of at least 1; the position is
  read right after the third loop has handled the cell.
\<close>

theorem date_text_stored:
  assumes "0 \<le> startColumn opts \<or> list_all (\<lambda>c. 1 \<le> col c) cells"
    and "i < length cells" and "inWindow opts (cells ! i)"
    and "numericValue (cells ! i) = Some nv" and "nv \<noteq> []"
    and "CHR ''/'' \<in> set (dollar_t (cells ! i)) \<or> CHR ''-'' \<in> set (dollar_t (cells ! i))"
  shows "\<exists>cols'. columnsAfter B opts (Json (Some cells)) (Suc i) = Inr cols' \<and>
           columnsAt cols' (nat (col (cells ! i) - 1 - startColumn opts))
                           (nat (row (cells ! i) - 1 - startRow opts))
             = Inr (Str (dollar_t (cells ! i)))"
proof -
  from assms(4,5) have "truthy (numericValue (cells ! i))" by (simp add: truthy_def)
  then have "cellValue B (cells ! i) = Str (dollar_t (cells ! i))"
    using assms(6) by (rule cellValue_date)
  with cell_stored [OF assms(1-3), of B] show ?thesis by simp
qed

text \<open>
  Witness of C6: text \<open>2021-01-01\<close> with a numeric value present, second cell of a feed, is
  stored as that string.
\<close>

theorem date_text_stored_witness:
  "columnsAfter intBuiltins defaultOptions
     (Json (Some [\<lparr> row = 1, col = 1, numericValue = None, dollar_t = ''day'' \<rparr>,
                  \<lparr> row = 2, col = 1, numericValue = Some ''44197'', dollar_t = ''2021-01-01'' \<rparr>]))
     (Suc 1)
     = Inr [Some [Str ''day'', Str ''2021-01-01'']] \<and>
   columnsAt [Some [Str ''day'', Str ''2021-01-01'']] 0 1
     = (Inr (Str ''2021-01-01'') :: error + int val)"
proof -
  let ?cells = "[\<lparr> row = 1, col = 1, numericValue = None, dollar_t = ''day'' \<rparr>,
                 \<lparr> row = 2, col = 1, numericValue = Some ''44197'', dollar_t = ''2021-01-01'' \<rparr>]"
  let ?opts = "defaultOptions :: int options"
  have h1: "0 \<le> startColumn ?opts \<or> list_all (\<lambda>c. 1 \<le> col c) ?cells"
    by (simp add: defaultOptions_def)
  have h2: "1 < length ?cells" by simp
  have h3: "inWindow ?opts (?cells ! 1)" by code_simp
  have v: "columnsAfter intBuiltins ?opts (Json (Some ?cells)) (Suc 1)
             = Inr [Some [Str ''day'', Str ''2021-01-01'']]"
    by code_simp
  from date_text_stored [OF h1 h2 h3, of "''44197''" intBuiltins]
  obtain cols' where "columnsAfter intBuiltins ?opts (Json (Some ?cells)) (Suc 1) = Inr cols'"
    and "columnsAt cols' (nat (col (?cells ! 1) - 1 - startColumn ?opts))
           (nat (row (?cells ! 1) - 1 - startRow ?opts))
         = Inr (Str (dollar_t (?cells ! 1)))"
    by auto
  with v show ?thesis by (simp add: defaultOptions_def)
qed

subsection \<open>C7: \<open>load\<close> and the spreadsheet key\<close>

text \<open>
  C7: \<open>load\<close> issues the request exactly when the configured key is a non-empty string, and
  that request is then its only effect; with an empty key \<open>load\<close> returns and the store,
  trace included, is what it was.
\<close>

theorem load_fetches_iff_key:
  "(googleSpreadsheetKey (options st) \<noteq> [] \<longrightarrow>
      load B st = (Inr (), st\<lparr>trace := trace st @ [AjaxGet (sheetUrl B (options st))]\<rparr>)) \<and>
   (googleSpreadsheetKey (options st) = [] \<longrightarrow> load B st = (Inr (), st))"
  by (simp add: load_def fetchSheet_def)

text \<open>Witness of C7: a store with key \<open>k\<close>, and a store with the default, empty key.\<close>

theorem load_fetches_iff_key_witness:
  "load intBuiltins (newStore (defaultOptions\<lparr>googleSpreadsheetKey := ''k''\<rparr>)) =
     (Inr (), \<lparr> options = defaultOptions\<lparr>googleSpreadsheetKey := ''k''\<rparr>, columns = [],
                trace = [AjaxGet ''https://spreadsheets.google.com/feeds/cells/k/1/public/values?alt=json''] \<rparr>) \<and>
   load intBuiltins (newStore defaultOptions) = (Inr (), newStore defaultOptions)"
  using load_fetches_iff_key [of "newStore (defaultOptions\<lparr>googleSpreadsheetKey := ''k''\<rparr>)" intBuiltins]
        load_fetches_iff_key [of "newStore defaultOptions" intBuiltins]
  by (simp add: newStore_def sheetUrl_example) (simp add: defaultOptions_def)

subsection \<open>C8: transport failure\<close>

text \<open>
  C8: in a load cycle whose request fails, the store fires exactly one event after the
  request, \<open>fail\<close> with the error detail, and returns normally: no table is built and no timer
  is set, whatever the polling options are.
\<close>

theorem transport_failure:
  assumes "googleSpreadsheetKey (options st) \<noteq> []"
  shows "loadCycle B (Failure text) st =
     (Inr (), st\<lparr>trace := trace st @
        [AjaxGet (sheetUrl B (options st)), Fired ''fail'' (FailArgs text)]\<rparr>)"
  using assms
  by (simp add: loadCycle_def fetchSheet_def ajaxReply_def fetchSheet_error_def fireEvent_def)

text \<open>Witness of C8: key \<open>k\<close>, polling enabled, the transport reports \<open>timeout\<close>.\<close>

theorem transport_failure_witness:
  "loadCycle intBuiltins (Failure ''timeout'')
     (newStore (defaultOptions\<lparr>googleSpreadsheetKey := ''k'', enablePolling := True\<rparr>)) =
     (Inr (), \<lparr> options = defaultOptions\<lparr>googleSpreadsheetKey := ''k'', enablePolling := True\<rparr>,
                columns = [],
                trace = [AjaxGet (sheetUrl intBuiltins
                           (defaultOptions\<lparr>googleSpreadsheetKey := ''k'', enablePolling := True\<rparr>)),
                         Fired ''fail'' (FailArgs ''timeout'')] \<rparr>)"
  using transport_failure [of "newStore (defaultOptions\<lparr>googleSpreadsheetKey := ''k'', enablePolling := True\<rparr>)"
          intBuiltins "''timeout''"]
  by (simp add: newStore_def)

subsection \<open>C9: a negative number's text\<close>

text \<open>
  C9: for every in-window cell that carries a numeric value and whose display text is a
  minus sign followed by digits, the value stored at the cell's position is the display text,
  a string, and not the parsed number. The cell is cell \<open>i\<close> of any feed, in a run of
  \<open>getSheetColumns\<close> whose window starts at a column index of at least 0 or whose feed has
  column indices of at least 1; the position is read right after the third loop has handled
  the cell.
\<close>

theorem negative_number_kept_as_text:
  assumes "0 \<le> startColumn opts \<or> list_all (\<lambda>c. 1 \<le> col c) cells"
    and "i < length cells" and "inWindow opts (cells ! i)"
    and "numericValue (cells ! i) = Some nv" and "nv \<noteq> []"
    and "dollar_t (cells ! i) = CHR ''-'' # digits"
  shows "\<exists>cols'. columnsAfter B opts (Json (Some cells)) (Suc i) = Inr cols' \<and>
           columnsAt cols' (nat (col (cells ! i) - 1 - startColumn opts))
                           (nat (row (cells ! i) - 1 - startRow opts))
             = Inr (Str (CHR ''-'' # digits)) \<and>
           columnsAt cols' (nat (col (cells ! i) - 1 - startColumn opts))
                           (nat (row (cells ! i) - 1 - startRow opts))
             \<noteq> Inr (Num (parseFloat B nv))"
proof -
  from assms(4,5) have t: "truthy (numericValue (cells ! i))" by (simp add: truthy_def)
  from assms(6)
  have "CHR ''/'' \<in> set (dollar_t (cells ! i)) \<or> CHR ''-'' \<in> set (dollar_t (cells ! i))"
    by simp
  with t have "cellValue B (cells ! i) = Str (dollar_t (cells ! i))" by (rule cellValue_date)
  with cell_stored [OF assms(1-3), of B] assms(6) show ?thesis by auto
qed

text \<open>Witness of C9: text \<open>-5\<close> at row 2, second cell of a feed with \<open>x\<close> at row 1.\<close>

theorem negative_number_kept_as_text_witness:
  "columnsAfter intBuiltins defaultOptions
     (Json (Some [\<lparr> row = 1, col = 1, numericValue = None, dollar_t = ''x'' \<rparr>,
                  \<lparr> row = 2, col = 1, numericValue = Some ''-5'', dollar_t = ''-5'' \<rparr>])) (Suc 1)
     = Inr [Some [Str ''x'', Str ''-5'']] \<and>
   columnsAt [Some [Str ''x'', Str ''-5'']] 0 1 = (Inr (Str ''-5'') :: error + int val)"
proof -
  let ?cells = "[\<lparr> row = 1, col = 1, numericValue = None, dollar_t = ''x'' \<rparr>,
                 \<lparr> row = 2, col = 1, numericValue = Some ''-5'', dollar_t = ''-5'' \<rparr>]"
  let ?opts = "defaultOptions :: int options"
  have h1: "0 \<le> startColumn ?opts \<or> list_all (\<lambda>c. 1 \<le> col c) ?cells"
    by (simp add: defaultOptions_def)
  have h2: "1 < length ?cells" by simp
  have h3: "inWindow ?opts (?cells ! 1)" by code_simp
  have v: "columnsAfter intBuiltins ?opts (Json (Some ?cells)) (Suc 1)
             = Inr [Some [Str ''x'', Str ''-5'']]"
    by code_simp
  from negative_number_kept_as_text [OF h1 h2 h3, of "''-5''" "''5''" intBuiltins]
  obtain cols' where "columnsAfter intBuiltins ?opts (Json (Some ?cells)) (Suc 1) = Inr cols'"
    and "columnsAt cols' (nat (col (?cells ! 1) - 1 - startColumn ?opts))
           (nat (row (?cells ! 1) - 1 - startRow ?opts))
         = Inr (Str ''-5'')"
    by auto
  with v show ?thesis by (simp add: defaultOptions_def)
qed

subsection \<open>C10: \<open>parseSheet\<close> on an empty feed\<close>

text \<open>
  C10: when \<open>feed.entry\<close> is missing or has no entries, \<open>parseSheet\<close> returns \<open>false\<close> and
  the store is what it was: its columns are the ones it held before, and nothing was fired.
\<close>

theorem parseSheet_empty_feed:
  assumes "feed_entry j = None \<or> feed_entry j = Some []"
  shows "fst (parseSheet B j st) = Inr (Some False) \<and>
         columns (snd (parseSheet B j st)) = columns st \<and>
         snd (parseSheet B j st) = st"
  by (simp add: parseSheet_guard [OF assms])

text \<open>
  Witness of C10: an empty entry list on a store that holds one column, and a missing
  entry list on a fresh store.
\<close>

theorem parseSheet_empty_feed_witness:
  "fst (parseSheet intBuiltins (Json (Some [])) (newStore defaultOptions\<lparr>columns := [Some [Str ''a'']]\<rparr>))
     = Inr (Some False) \<and>
   columns (snd (parseSheet intBuiltins (Json (Some [])) (newStore defaultOptions\<lparr>columns := [Some [Str ''a'']]\<rparr>)))
     = [Some [Str ''a'']] \<and>
   fst (parseSheet intBuiltins (Json None) (newStore defaultOptions)) = Inr (Some False)"
  using parseSheet_empty_feed [of "Json (Some [])" intBuiltins "newStore defaultOptions\<lparr>columns := [Some [Str ''a'']]\<rparr>"]
        parseSheet_empty_feed [of "Json None" intBuiltins "newStore defaultOptions"]
  by simp

end
